theory Spec2Isabelle
  imports Complex_Main "HOL-Library.Word"
begin

section \<open>The Docker client wrapper of weave: \<^verbatim>\<open>common/docker/client.go\<close>\<close>

text \<open>
  The file wraps \<^verbatim>\<open>github.com/fsouza/go-dockerclient\<close>. Three of its functions carry
  logic: \<^verbatim>\<open>AddObserver\<close> (a goroutine that subscribes to Docker events and
  re-subscribes with a growing delay), \<^verbatim>\<open>IsContainerNotRunning\<close> and
  \<^verbatim>\<open>GetContainerIP\<close>. They are embedded below. Calls to the logger
  (\<^verbatim>\<open>Log.Debugf\<close>, \<^verbatim>\<open>Log.Errorf\<close>, \<^verbatim>\<open>Log.Debugln\<close>) only write text and
  influence neither the control flow nor any returned value; they are left out.
\<close>

subsection \<open>Durations\<close>

text \<open>
  Go's \<^verbatim>\<open>time.Duration\<close> is an \<^verbatim>\<open>int64\<close> count of nanoseconds: multiplication wraps
  around, \<^verbatim>\<open>/\<close> truncates towards zero and comparisons are signed.
\<close>

type_synonym Duration = "64 word"

definition Second :: Duration where
  "Second = 1000000000"

definition InitialInterval :: Duration where
  "InitialInterval = 1 * Second"

definition MaxInterval :: Duration where
  "MaxInterval = 20 * Second"

text \<open>
  \<^verbatim>\<open>a / b\<close> on \<^verbatim>\<open>int64\<close> for a divisor that is not zero (the only divisor of the
  file is the constant 2): the quotient of the signed values, rounded towards zero.
\<close>

definition quo :: "Duration \<Rightarrow> Duration \<Rightarrow> Duration" where
  "quo a b = word_of_int (sgn (sint a) * sgn (sint b) * (\<bar>sint a\<bar> div \<bar>sint b\<bar>))"

subsection \<open>The types of the Docker library\<close>

text \<open>
  An \<^verbatim>\<open>error\<close> value of Go. The code tells errors apart only by the type assertion
  \<^verbatim>\<open>err.(*docker.NoSuchContainer)\<close>, so an error is either of that type (with the
  identifier it carries) or of any other type (with its message; \<^verbatim>\<open>errors.New\<close>
  builds one of these). A \<^verbatim>\<open>nil\<close> error is \<open>None\<close> of \<open>error option\<close>.
\<close>

datatype error = NoSuchContainer string | errorString string

text \<open>
  Modelled from the spec: the declarations of \<^verbatim>\<open>docker.Container\<close>,
  \<^verbatim>\<open>docker.State\<close>, \<^verbatim>\<open>docker.NetworkSettings\<close>, \<^verbatim>\<open>docker.ContainerNetwork\<close>,
  \<^verbatim>\<open>docker.HostConfig\<close> and \<^verbatim>\<open>docker.APIEvents\<close> belong to the library and are not
  part of the file. The inspected container is a read-only snapshot with a mapping from
  network name to per-network address info, a top-level legacy IP address field and a
  network-mode field; an event is a status value with a container identifier. Only the
  fields the file reads are kept, under the names the file uses. The map
  \<^verbatim>\<open>Networks\<close> may be \<^verbatim>\<open>nil\<close> (\<open>None\<close>), which the code tests. The library
  hands these values out behind pointers; as in the data model of the specification, a
  container or an event that has been delivered is there, and so are the network settings
  and the host configuration of a container.
\<close>

record docker_State =
  Running :: bool
  Restarting :: bool

record docker_ContainerNetwork =
  IPAddress :: string

record docker_NetworkSettings =
  IPAddress :: string
  Networks :: "(string \<rightharpoonup> docker_ContainerNetwork) option"

record docker_HostConfig =
  NetworkMode :: string

record docker_Container =
  State :: docker_State
  NetworkSettings :: docker_NetworkSettings
  HostConfig :: docker_HostConfig

record docker_APIEvents =
  Status :: string
  ID :: string

text \<open>
  The embedded \<^verbatim>\<open>*docker.Client\<close>. \<^verbatim>\<open>InspectContainer\<close> talks to the Docker daemon:
  it takes the state \<open>'w\<close> of the outside world and returns its answer with the world
  after the call. The answer is Go's pair of a container and an error of which exactly
  one is not \<^verbatim>\<open>nil\<close>: \<open>Inl\<close> is the error, \<open>Inr\<close> the container.
\<close>

record 'w Client =
  InspectContainer :: "string \<Rightarrow> 'w \<Rightarrow> (error + docker_Container) \<times> 'w"

subsection \<open>\<^verbatim>\<open>IsContainerNotRunning\<close>\<close>

definition IsContainerNotRunning :: "'w Client \<Rightarrow> string \<Rightarrow> 'w \<Rightarrow> bool \<times> 'w" where
  "IsContainerNotRunning c idStr w =
     (case InspectContainer c idStr w of
        (Inr container, w') \<Rightarrow>
          (\<not> Running (State container) \<or> Restarting (State container), w')
      | (Inl (NoSuchContainer ident), w') \<Rightarrow> (True, w')
      | (Inl (errorString msg), w') \<Rightarrow> (False, w'))"

subsection \<open>\<^verbatim>\<open>GetContainerIP\<close>\<close>

text \<open>
  The result is Go's pair \<^verbatim>\<open>(string, error)\<close> together with the world after the call.
  The two \<^verbatim>\<open>return\<close> statements after the \<^verbatim>\<open>if\<close> chain are reached from both of its
  branches that fall through; they are the local \<open>legacy\<close>.
\<close>

definition GetContainerIP ::
    "'w Client \<Rightarrow> string \<Rightarrow> 'w \<Rightarrow> (string \<times> error option) \<times> 'w" where
  "GetContainerIP c nameOrID w =
     (case InspectContainer c nameOrID w of
        (Inl err, w') \<Rightarrow> (('''', Some err), w')
      | (Inr info, w') \<Rightarrow>
          (let legacy =
                 (if docker_NetworkSettings.IPAddress (NetworkSettings info) = ''''
                  then ('''', Some (errorString (''No IP address found for container '' @ nameOrID)))
                  else (docker_NetworkSettings.IPAddress (NetworkSettings info), None))
           in (case Networks (NetworkSettings info) of
                 Some networks \<Rightarrow>
                   (case networks ''bridge'' of
                      Some bridgeNetwork \<Rightarrow>
                        (docker_ContainerNetwork.IPAddress bridgeNetwork, None)
                    | None \<Rightarrow>
                        (case networks ''host'' of
                           Some _ \<Rightarrow> (''127.0.0.1'', None)
                         | None \<Rightarrow> legacy))
               | None \<Rightarrow>
                   (if NetworkMode (HostConfig info) = ''host''
                    then (''127.0.0.1'', None)
                    else legacy)),
           w'))"

subsection \<open>\<^verbatim>\<open>AddObserver\<close>\<close>

text \<open>
  The interface \<^verbatim>\<open>ContainerObserver\<close>: two methods that take an identifier, act on
  the observer's own state \<open>'o\<close> and return.
\<close>

record 'o ContainerObserver =
  ContainerStarted :: "string \<Rightarrow> 'o \<Rightarrow> 'o"
  ContainerDied :: "string \<Rightarrow> 'o \<Rightarrow> 'o"

text \<open>
  The inner loop \<^verbatim>\<open>for event := range events\<close> with its \<^verbatim>\<open>switch\<close>: the events
  received from the channel are handled one after the other, each before the next is
  received. The list is what the channel has delivered so far, so the function also
  describes a stream that is still open.
\<close>

fun range_events :: "'o ContainerObserver \<Rightarrow> docker_APIEvents list \<Rightarrow> 'o \<Rightarrow> 'o" where
  "range_events ob [] s = s"
| "range_events ob (event # events) s =
     range_events ob events
       (if Status event = ''start'' then ContainerStarted ob (ID event) s
        else if Status event = ''die'' then ContainerDied ob (ID event) s
        else s)"

text \<open>
  What the Docker daemon does during one pass of the outer loop: either
  \<^verbatim>\<open>AddEventListener\<close> returns an error, or it succeeds, the channel delivers some
  events and is closed, and \<^verbatim>\<open>time.Since(start)\<close> then reads the given duration.
\<close>

datatype attempt = ListenFailed error | Streamed "docker_APIEvents list" Duration

text \<open>
  The variables of the goroutine: \<^verbatim>\<open>retryInterval\<close>, the state of the observer, and
  the arguments of the calls of \<^verbatim>\<open>time.Sleep\<close> made so far, oldest first.
\<close>

record 'o subscriber =
  retryInterval :: Duration
  observer :: 'o
  slept :: "Duration list"

text \<open>The last statements of the loop body: the interval grows by half and is capped.\<close>

definition grow :: "Duration \<Rightarrow> Duration" where
  "grow r = (let r' = quo (r * 3) 2 in if MaxInterval <s r' then MaxInterval else r')"

text \<open>One pass through the body of \<^verbatim>\<open>for { ... }\<close>.\<close>

fun pass :: "'o ContainerObserver \<Rightarrow> attempt \<Rightarrow> 'o subscriber \<Rightarrow> 'o subscriber" where
  "pass ob (ListenFailed err) st =
     st\<lparr>slept := slept st @ [retryInterval st], retryInterval := grow (retryInterval st)\<rparr>"
| "pass ob (Streamed events elapsed) st =
     (let o' = range_events ob events (observer st);
          r = (if retryInterval st <s elapsed then InitialInterval else retryInterval st)
      in st\<lparr>observer := o', slept := slept st @ [r], retryInterval := grow r\<rparr>)"

text \<open>
  The outer loop has no exit. Its executions are described by their finite prefixes:
  \<open>event_loop ob script st\<close> runs one pass for each entry of the script, the answers
  of the daemon in order, and returns the variables as they are when the next pass is
  about to begin.
\<close>

fun event_loop :: "'o ContainerObserver \<Rightarrow> attempt list \<Rightarrow> 'o subscriber \<Rightarrow> 'o subscriber" where
  "event_loop ob [] st = st"
| "event_loop ob (a # script) st = event_loop ob script (pass ob a st)"

text \<open>The body of the goroutine: \<^verbatim>\<open>retryInterval := InitialInterval\<close>, then the loop.\<close>

definition subscription :: "'o ContainerObserver \<Rightarrow> attempt list \<Rightarrow> 'o \<Rightarrow> 'o subscriber" where
  "subscription ob script s =
     event_loop ob script \<lparr>retryInterval = InitialInterval, observer = s, slept = []\<rparr>"

text \<open>
  \<^verbatim>\<open>AddObserver\<close> itself: the \<^verbatim>\<open>go\<close> statement hands the goroutine to the scheduler
  and \<^verbatim>\<open>return nil\<close> follows. The result is the list of goroutines started and the
  returned error.
\<close>

definition AddObserver ::
    "'o ContainerObserver \<Rightarrow> (attempt list \<Rightarrow> 'o \<Rightarrow> 'o subscriber) list \<times> error option" where
  "AddObserver ob = ([subscription ob], None)"

subsection \<open>The observer's view of a stream, in the words of the specification\<close>

datatype observer_call = Started string | Died string

text \<open>
  For each event: if status is \<^verbatim>\<open>start\<close>, invoke \<^verbatim>\<open>ContainerStarted(id)\<close>; if status
  is \<^verbatim>\<open>die\<close>, invoke \<^verbatim>\<open>ContainerDied(id)\<close>; otherwise ignore.
\<close>

definition calls_for :: "docker_APIEvents \<Rightarrow> observer_call list" where
  "calls_for event =
     (if Status event = ''start'' then [Started (ID event)]
      else if Status event = ''die'' then [Died (ID event)]
      else [])"

definition invoke :: "'o ContainerObserver \<Rightarrow> 'o \<Rightarrow> observer_call \<Rightarrow> 'o" where
  "invoke ob s call =
     (case call of Started ident \<Rightarrow> ContainerStarted ob ident s
                 | Died ident \<Rightarrow> ContainerDied ob ident s)"

text \<open>An observer that does nothing but write down the calls it receives.\<close>

definition recorder :: "observer_call list ContainerObserver" where
  "recorder =
     \<lparr>ContainerStarted = (\<lambda>ident calls. calls @ [Started ident]),
      ContainerDied = (\<lambda>ident calls. calls @ [Died ident])\<rparr>"

subsection \<open>Inputs for concrete runs\<close>

text \<open>
  A client that gives the same answer to every \<^verbatim>\<open>InspectContainer\<close> and whose world
  is the list of identifiers it was asked to inspect, oldest first.
\<close>

definition logging_client :: "error + docker_Container \<Rightarrow> string list Client" where
  "logging_client answer =
     \<lparr>InspectContainer = (\<lambda>ident asked. (answer, asked @ [ident]))\<rparr>"

definition network :: "string \<Rightarrow> docker_ContainerNetwork" where
  "network ip = \<lparr>docker_ContainerNetwork.IPAddress = ip\<rparr>"

definition inspected ::
    "bool \<Rightarrow> bool \<Rightarrow> (string \<rightharpoonup> docker_ContainerNetwork) option \<Rightarrow> string \<Rightarrow> string \<Rightarrow>
     docker_Container" where
  "inspected running restarting networks mode ip =
     \<lparr>State = \<lparr>Running = running, Restarting = restarting\<rparr>,
      NetworkSettings = \<lparr>docker_NetworkSettings.IPAddress = ip, Networks = networks\<rparr>,
      HostConfig = \<lparr>NetworkMode = mode\<rparr>\<rparr>"

subsection \<open>The resolution rules, in the words of the specification\<close>

text \<open>
  Rule 1: per-network info is present and contains an entry named \<^verbatim>\<open>bridge\<close>.
\<close>

definition bridge_rule :: "docker_Container \<Rightarrow> bool" where
  "bridge_rule info =
     (case Networks (NetworkSettings info) of
        Some networks \<Rightarrow> networks ''bridge'' \<noteq> None
      | None \<Rightarrow> False)"

text \<open>
  Rules 2 and 3: per-network info is present, has no entry \<^verbatim>\<open>bridge\<close> and contains an
  entry named \<^verbatim>\<open>host\<close>; or per-network info is absent and the network-mode field
  equals \<^verbatim>\<open>host\<close>.
\<close>

definition host_rule :: "docker_Container \<Rightarrow> bool" where
  "host_rule info =
     (case Networks (NetworkSettings info) of
        Some networks \<Rightarrow> networks ''bridge'' = None \<and> networks ''host'' \<noteq> None
      | None \<Rightarrow> NetworkMode (HostConfig info) = ''host'')"

subsection \<open>The events of a whole execution\<close>

text \<open>The events that the streams of a script deliver, in the order they are received.\<close>

fun delivered :: "attempt list \<Rightarrow> docker_APIEvents list" where
  "delivered [] = []"
| "delivered (ListenFailed err # script) = delivered script"
| "delivered (Streamed events elapsed # script) = events @ delivered script"

definition event :: "string \<Rightarrow> string \<Rightarrow> docker_APIEvents" where
  "event status ident = \<lparr>Status = status, ID = ident\<rparr>"

subsection \<open>The bounds of the retry interval\<close>

text \<open>The interval lies between \<^verbatim>\<open>InitialInterval\<close> and \<^verbatim>\<open>MaxInterval\<close>, as Go compares them.\<close>

definition in_bounds :: "Duration \<Rightarrow> bool" where
  "in_bounds r \<longleftrightarrow> InitialInterval \<le>s r \<and> r \<le>s MaxInterval"

section \<open>Arithmetic of the retry interval\<close>

lemma sint_InitialInterval: "sint InitialInterval = 1000000000"
  by (simp add: InitialInterval_def Second_def)

lemma sint_MaxInterval: "sint MaxInterval = 20000000000"
  by (simp add: MaxInterval_def Second_def)

lemma InitialInterval_numeral: "InitialInterval = 1000000000"
  by (simp add: InitialInterval_def Second_def)

text \<open>Three times the largest interval is far from the end of \<^verbatim>\<open>int64\<close>.\<close>

lemma sint_in_range:
  fixes k :: int
  assumes "0 \<le> k" and "k \<le> 60000000000"
  shows "sint (word_of_int k :: Duration) = k"
proof -
  have "- (2 ^ 63) \<le> k" and "k < 2 ^ 63"
    using assms by simp_all
  then have "signed_take_bit 63 k = k"
    by (rule signed_take_bit_int_eq_self)
  then show ?thesis
    by (simp add: sint_sbintrunc')
qed

lemma sint_times_3:
  fixes r :: Duration
  assumes "0 \<le> sint r" and "sint r \<le> 20000000000"
  shows "sint (r * 3) = sint r * 3"
proof -
  have "r * 3 = word_of_int (sint r * 3)"
    by simp
  moreover have "sint (word_of_int (sint r * 3) :: Duration) = sint r * 3"
    using assms by (intro sint_in_range) simp_all
  ultimately show ?thesis
    by simp
qed

lemma sint_quo_2:
  fixes x :: Duration
  assumes "0 \<le> sint x" and "sint x \<le> 60000000000"
  shows "sint (quo x 2) = sint x div 2"
proof -
  have "quo x 2 = word_of_int (sint x div 2)"
    using assms(1) by (cases "sint x = 0") (simp_all add: quo_def)
  moreover have "sint (word_of_int (sint x div 2) :: Duration) = sint x div 2"
    using assms by (intro sint_in_range) simp_all
  ultimately show ?thesis
    by simp
qed

lemma sint_grow:
  fixes r :: Duration
  assumes "0 \<le> sint r" and "sint r \<le> 20000000000"
  shows "sint (grow r) = min (sint r * 3 div 2) 20000000000"
proof -
  have m: "sint (r * 3) = sint r * 3"
    using assms by (rule sint_times_3)
  have "sint (quo (r * 3) 2) = sint (r * 3) div 2"
    using assms m by (intro sint_quo_2) simp_all
  then have q: "sint (quo (r * 3) 2) = sint r * 3 div 2"
    using m by simp
  show ?thesis
    by (simp add: grow_def Let_def word_sless_alt q sint_MaxInterval min_def)
qed

lemma in_bounds_sint: "in_bounds r \<longleftrightarrow> 1000000000 \<le> sint r \<and> sint r \<le> 20000000000"
  by (simp add: in_bounds_def word_sle_eq sint_InitialInterval sint_MaxInterval)

lemma in_bounds_InitialInterval: "in_bounds InitialInterval"
  by (simp add: in_bounds_sint sint_InitialInterval)

lemma in_bounds_grow:
  assumes "in_bounds r"
  shows "in_bounds (grow r)"
proof -
  have r: "1000000000 \<le> sint r" "sint r \<le> 20000000000"
    using assms by (simp_all add: in_bounds_sint)
  then have "sint (grow r) = min (sint r * 3 div 2) 20000000000"
    by (intro sint_grow) simp_all
  moreover have "1000000000 \<le> sint r * 3 div 2"
    using r by linarith
  ultimately show ?thesis
    by (simp add: in_bounds_sint)
qed

lemma grow_increases:
  assumes "in_bounds r"
  shows "r \<le>s grow r"
proof -
  have r: "1000000000 \<le> sint r" "sint r \<le> 20000000000"
    using assms by (simp_all add: in_bounds_sint)
  then have "sint (grow r) = min (sint r * 3 div 2) 20000000000"
    by (intro sint_grow) simp_all
  moreover have "sint r \<le> sint r * 3 div 2"
    using r by linarith
  ultimately show ?thesis
    using r by (simp add: word_sle_eq)
qed

text \<open>The intervals met on the way from one second to the cap.\<close>

lemma grow_ladder:
  "grow 1000000000 = 1500000000"
  "grow 1500000000 = 2250000000"
  "grow 2250000000 = 3375000000"
  "grow 3375000000 = 5062500000"
  "grow 5062500000 = 7593750000"
  "grow 7593750000 = 11390625000"
  "grow 11390625000 = 17085937500"
  "grow 17085937500 = 20000000000"
  "grow 20000000000 = 20000000000"
  by (simp_all add: grow_def quo_def MaxInterval_def Second_def)

lemma grow_pow_capped: "(grow ^^ (8 + k)) InitialInterval = 20000000000"
proof (induction k)
  case 0
  show ?case
    by (simp add: eval_nat_numeral InitialInterval_numeral grow_ladder)
next
  case (Suc k)
  have "(grow ^^ (8 + Suc k)) InitialInterval = grow ((grow ^^ (8 + k)) InitialInterval)"
    by (simp only: add_Suc_right funpow.simps o_apply)
  then show ?case
    by (simp only: Suc.IH grow_ladder)
qed

lemma grow_pow_real:
  "real_of_int (sint ((grow ^^ i) InitialInterval)) = min (1000000000 * (3 / 2) ^ i) 20000000000"
proof (cases "i < 8")
  case True
  then consider "i = 0" | "i = 1" | "i = 2" | "i = 3" | "i = 4" | "i = 5" | "i = 6" | "i = 7"
    by linarith
  then show ?thesis
    by cases (simp_all add: eval_nat_numeral InitialInterval_numeral grow_ladder)
next
  case False
  then obtain k where i: "i = 8 + k"
    using le_Suc_ex [of 8 i] by auto
  have "(3 / 2 :: real) ^ 8 \<le> (3 / 2) ^ i"
    using False by (intro power_increasing) simp_all
  then have "(20000000000 :: real) \<le> 1000000000 * (3 / 2) ^ i"
    by (simp add: eval_nat_numeral)
  then show ?thesis
    by (simp add: i grow_pow_capped)
qed

section \<open>The subscription loop\<close>

lemma event_loop_append:
  "event_loop ob (xs @ ys) st = event_loop ob ys (event_loop ob xs st)"
  by (induction xs arbitrary: st) simp_all

lemma subscription_snoc:
  "subscription ob (script @ [a]) s = pass ob a (subscription ob script s)"
  by (simp add: subscription_def event_loop_append)

lemma retryInterval_pass:
  "retryInterval (pass ob a st) =
     grow (case a of ListenFailed err \<Rightarrow> retryInterval st
           | Streamed events elapsed \<Rightarrow>
               if retryInterval st <s elapsed then InitialInterval else retryInterval st)"
  by (cases a) (simp_all add: Let_def)

lemma slept_pass:
  "slept (pass ob a st) = slept st @
     [case a of ListenFailed err \<Rightarrow> retryInterval st
      | Streamed events elapsed \<Rightarrow>
          if retryInterval st <s elapsed then InitialInterval else retryInterval st]"
  by (cases a) (simp_all add: Let_def)

lemma in_bounds_pass:
  assumes "in_bounds (retryInterval st)" and "\<forall>d \<in> set (slept st). in_bounds d"
  shows "in_bounds (retryInterval (pass ob a st)) \<and>
         (\<forall>d \<in> set (slept (pass ob a st)). in_bounds d)"
  using assms
  by (cases a)
    (auto simp del: pass.simps
          simp add: retryInterval_pass slept_pass in_bounds_grow in_bounds_InitialInterval)

lemma in_bounds_event_loop:
  assumes "in_bounds (retryInterval st)" and "\<forall>d \<in> set (slept st). in_bounds d"
  shows "in_bounds (retryInterval (event_loop ob script st)) \<and>
         (\<forall>d \<in> set (slept (event_loop ob script st)). in_bounds d)"
  using assms
proof (induction script arbitrary: st)
  case Nil
  then show ?case by simp
next
  case (Cons a script)
  have "in_bounds (retryInterval (pass ob a st)) \<and>
        (\<forall>d \<in> set (slept (pass ob a st)). in_bounds d)"
    using Cons.prems by (rule in_bounds_pass)
  then show ?case
    using Cons.IH [of "pass ob a st"] by simp
qed

lemma in_bounds_subscription:
  "in_bounds (retryInterval (subscription ob script s)) \<and>
   (\<forall>d \<in> set (slept (subscription ob script s)). in_bounds d)"
  unfolding subscription_def
  by (rule in_bounds_event_loop) (simp_all add: in_bounds_InitialInterval)

lemma failures_slept:
  "slept (event_loop ob (map ListenFailed errs) st) =
     slept st @ map (\<lambda>i. (grow ^^ i) (retryInterval st)) [0..<length errs]"
proof (induction errs arbitrary: st)
  case Nil
  then show ?case by simp
next
  case (Cons e errs)
  have "map (\<lambda>i. (grow ^^ i) (retryInterval st)) [0..<length (e # errs)] =
        retryInterval st # map (\<lambda>i. (grow ^^ i) (grow (retryInterval st))) [0..<length errs]"
    by (simp add: upt_conv_Cons map_Suc_upt [symmetric] funpow_swap1 del: upt_Suc)
  then show ?case
    using Cons.IH [of "pass ob (ListenFailed e) st"] by simp
qed

section \<open>Inspection\<close>

lemma inspected_simps:
  "Running (State (inspected running restarting networks mode ip)) = running"
  "Restarting (State (inspected running restarting networks mode ip)) = restarting"
  "Networks (NetworkSettings (inspected running restarting networks mode ip)) = networks"
  "NetworkMode (HostConfig (inspected running restarting networks mode ip)) = mode"
  "docker_NetworkSettings.IPAddress (NetworkSettings (inspected running restarting networks mode ip)) = ip"
  "docker_ContainerNetwork.IPAddress (network a) = a"
  by (simp_all add: inspected_def network_def)

lemma InspectContainer_logging_client:
  "InspectContainer (logging_client answer) ident asked = (answer, asked @ [ident])"
  by (simp add: logging_client_def)

text \<open>What \<^verbatim>\<open>GetContainerIP\<close> returns once the inspection has succeeded, and when it has failed.\<close>

lemma GetContainerIP_inspected:
  assumes "InspectContainer c nameOrID w = (Inr info, w')"
  shows "GetContainerIP c nameOrID w =
    ((case Networks (NetworkSettings info) of
        Some networks \<Rightarrow>
          (case networks ''bridge'' of
             Some bridgeNetwork \<Rightarrow> (docker_ContainerNetwork.IPAddress bridgeNetwork, None)
           | None \<Rightarrow>
               if networks ''host'' \<noteq> None then (''127.0.0.1'', None)
               else if docker_NetworkSettings.IPAddress (NetworkSettings info) = ''''
               then ('''', Some (errorString (''No IP address found for container '' @ nameOrID)))
               else (docker_NetworkSettings.IPAddress (NetworkSettings info), None))
      | None \<Rightarrow>
          if NetworkMode (HostConfig info) = ''host'' then (''127.0.0.1'', None)
          else if docker_NetworkSettings.IPAddress (NetworkSettings info) = ''''
          then ('''', Some (errorString (''No IP address found for container '' @ nameOrID)))
          else (docker_NetworkSettings.IPAddress (NetworkSettings info), None)), w')"
  using assms by (simp add: GetContainerIP_def Let_def split: option.splits)

lemma GetContainerIP_failed:
  assumes "InspectContainer c nameOrID w = (Inl err, w')"
  shows "GetContainerIP c nameOrID w = (('''', Some err), w')"
  using assms by (simp add: GetContainerIP_def)

section \<open>The observer\<close>

lemma range_events_invoke:
  "range_events ob events s = foldl (invoke ob) s (concat (map calls_for events))"
  by (induction events arbitrary: s) (simp_all add: calls_for_def invoke_def)

lemma foldl_invoke_recorder: "foldl (invoke recorder) calls cs = calls @ cs"
proof (induction cs arbitrary: calls)
  case Nil
  then show ?case by simp
next
  case (Cons call cs)
  then show ?case
    by (cases call) (simp_all add: invoke_def recorder_def)
qed

lemma range_events_recorder:
  "range_events recorder events calls = calls @ concat (map calls_for events)"
  by (simp only: range_events_invoke foldl_invoke_recorder)

lemma observer_event_loop:
  "observer (event_loop ob script st) = range_events ob (delivered script) (observer st)"
proof (induction script arbitrary: st)
  case Nil
  then show ?case by simp
next
  case (Cons a script)
  have app: "range_events ob (xs @ ys) s = range_events ob ys (range_events ob xs s)" for xs ys s
    by (induction xs arbitrary: s) simp_all
  show ?case
    by (cases a) (simp_all add: Cons.IH app Let_def)
qed

section \<open>The claims\<close>

text \<open>
  C1. When the first attempts of the subscription loop all fail to open the stream,
  one call of \<^verbatim>\<open>time.Sleep\<close> is made per failure, and the interval slept before the
  \<open>N\<close>th retry, read in nanoseconds as a real number, is the smaller of
  \<open>10\<^sup>9 \<sdot> (3/2)\<^bsup>N-1\<^esup>\<close> and \<open>20 \<sdot> 10\<^sup>9\<close>: the \<^verbatim>\<open>int64\<close> computation
  \<^verbatim>\<open>retryInterval * 3 / 2\<close> followed by the cap loses nothing to rounding or
  wrap-around. The \<open>N\<close>th retry is the entry \<open>N - 1\<close> of the list of sleeps.
\<close>

theorem backoff_sequence:
  "length (slept (subscription ob (map ListenFailed errs) s)) = length errs \<and>
   (\<forall>i < length errs.
      real_of_int (sint (slept (subscription ob (map ListenFailed errs) s) ! i)) =
        min (1000000000 * (3 / 2) ^ i) 20000000000)"
proof (intro conjI allI impI)
  show "length (slept (subscription ob (map ListenFailed errs) s)) = length errs"
    by (simp add: subscription_def failures_slept)
next
  fix i
  assume "i < length errs"
  then have "slept (subscription ob (map ListenFailed errs) s) ! i = (grow ^^ i) InitialInterval"
    by (simp add: subscription_def failures_slept)
  then show "real_of_int (sint (slept (subscription ob (map ListenFailed errs) s) ! i)) =
        min (1000000000 * (3 / 2) ^ i) 20000000000"
    by (simp only: grow_pow_real)
qed

theorem backoff_sequence_witness:
  "9 < length (replicate 10 (errorString ''connection refused'')) \<and>
   real_of_int (sint (slept (subscription recorder
      (map ListenFailed (replicate 10 (errorString ''connection refused''))) []) ! 3)) = 3375000000 \<and>
   real_of_int (sint (slept (subscription recorder
      (map ListenFailed (replicate 10 (errorString ''connection refused''))) []) ! 9)) = 20000000000"
proof -
  let ?errs = "replicate 10 (errorString ''connection refused'')"
  let ?ns = "\<lambda>i. real_of_int (sint (slept (subscription recorder (map ListenFailed ?errs) []) ! i))"
  have every: "\<forall>i < length ?errs. ?ns i = min (1000000000 * (3 / 2) ^ i) 20000000000"
    using backoff_sequence [of recorder ?errs "[]"] by (rule conjunct2)
  have len: "3 < length ?errs" "9 < length ?errs"
    by simp_all
  with every have "?ns 3 = min (1000000000 * (3 / 2) ^ 3) 20000000000"
    and "?ns 9 = min (1000000000 * (3 / 2) ^ 9) 20000000000"
    by blast+
  moreover have "min (1000000000 * (3 / 2) ^ 3) 20000000000 = (3375000000 :: real)"
    and "min (1000000000 * (3 / 2) ^ 9) 20000000000 = (20000000000 :: real)"
    by (simp_all add: eval_nat_numeral)
  ultimately show ?thesis
    using len(2) by (simp only: simp_thms)
qed

text \<open>
  C2. Take any execution of the subscription loop up to the start of a pass (\<open>st\<close>,
  after the answers \<open>script\<close>) and the pass that follows (\<open>st'\<close>, after the answer
  \<open>a\<close>). The interval and every interval slept so far lie between
  \<^verbatim>\<open>InitialInterval\<close> and \<^verbatim>\<open>MaxInterval\<close>. After a failure to open the stream the
  loop sleeps for the interval as it is, and the interval does not decrease. After a
  stream that was open, the loop sleeps for \<^verbatim>\<open>InitialInterval\<close> if the time the
  stream stayed open is strictly greater than the interval at the time it was opened,
  and for the unchanged interval otherwise. In every case the growth step is applied to
  the interval just slept.
\<close>

theorem backoff_interval_invariant:
  "(let st = subscription ob script s; st' = subscription ob (script @ [a]) s in
      in_bounds (retryInterval st) \<and>
      (\<forall>d \<in> set (slept st). in_bounds d) \<and>
      (case a of
         ListenFailed err \<Rightarrow>
           slept st' = slept st @ [retryInterval st] \<and>
           retryInterval st \<le>s retryInterval st'
       | Streamed events elapsed \<Rightarrow>
           slept st' = slept st @
             [if retryInterval st <s elapsed then InitialInterval else retryInterval st]) \<and>
      retryInterval st' = grow (last (slept st')))"
proof -
  define st where "st = subscription ob script s"
  have st': "subscription ob (script @ [a]) s = pass ob a st"
    by (simp only: st_def subscription_snoc)
  have b: "in_bounds (retryInterval st)" and d: "\<forall>d \<in> set (slept st). in_bounds d"
    using in_bounds_subscription [of ob script s] by (simp_all add: st_def)
  have step: "case a of
         ListenFailed err \<Rightarrow>
           slept (pass ob a st) = slept st @ [retryInterval st] \<and>
           retryInterval st \<le>s retryInterval (pass ob a st)
       | Streamed events elapsed \<Rightarrow>
           slept (pass ob a st) = slept st @
             [if retryInterval st <s elapsed then InitialInterval else retryInterval st]"
    using b by (cases a) (simp_all add: grow_increases Let_def)
  have last: "retryInterval (pass ob a st) = grow (last (slept (pass ob a st)))"
    by (cases a) (simp_all add: Let_def)
  show ?thesis
    unfolding Let_def st' st_def [symmetric]
    using b d step last by (intro conjI)
qed

theorem backoff_interval_invariant_witness:
  "in_bounds (retryInterval (subscription recorder
      [ListenFailed (errorString ''refused''), ListenFailed (errorString ''refused'')] [])) \<and>
   in_bounds (slept (subscription recorder
      [ListenFailed (errorString ''refused''), ListenFailed (errorString ''refused'')] []) ! 1) \<and>
   2250000000 <s (3000000000 :: Duration) \<and>
   slept (subscription recorder
     ([ListenFailed (errorString ''refused''), ListenFailed (errorString ''refused'')] @
      [Streamed [] 3000000000]) []) = [1000000000, 1500000000, 1000000000] \<and>
   retryInterval (subscription recorder
     ([ListenFailed (errorString ''refused''), ListenFailed (errorString ''refused'')] @
      [Streamed [] 3000000000]) []) = 1500000000 \<and>
   slept (subscription recorder
     ([ListenFailed (errorString ''refused''), ListenFailed (errorString ''refused'')] @
      [ListenFailed (errorString ''refused'')]) []) = [1000000000, 1500000000, 2250000000] \<and>
   retryInterval (subscription recorder
     ([ListenFailed (errorString ''refused''), ListenFailed (errorString ''refused'')] @
      [ListenFailed (errorString ''refused'')]) []) = 3375000000"
proof -
  let ?script = "[ListenFailed (errorString ''refused''), ListenFailed (errorString ''refused'')]"
  have before: "slept (subscription recorder ?script []) = [1000000000, 1500000000]"
    "retryInterval (subscription recorder ?script []) = 2250000000"
    by (simp_all add: subscription_def InitialInterval_numeral grow_ladder)
  show ?thesis
    using backoff_interval_invariant [of recorder ?script "[]" "Streamed [] 3000000000"]
      backoff_interval_invariant [of recorder ?script "[]" "ListenFailed (errorString ''refused'')"]
    unfolding Let_def before
    by (simp add: InitialInterval_numeral grow_ladder)
qed

text \<open>
  C3. When the inspection succeeds, the map \<^verbatim>\<open>Networks\<close> is not \<^verbatim>\<open>nil\<close> and has an
  entry \<^verbatim>\<open>bridge\<close>, \<^verbatim>\<open>GetContainerIP\<close> returns the \<^verbatim>\<open>IPAddress\<close> of that entry and
  a \<^verbatim>\<open>nil\<close> error, whatever that address is (the empty string included) and whatever
  the entry \<^verbatim>\<open>host\<close>, the network mode and the legacy address field hold.
\<close>

theorem bridge_address_returned:
  assumes "InspectContainer c nameOrID w = (Inr info, w')"
    and "Networks (NetworkSettings info) = Some networks"
    and "networks ''bridge'' = Some bridgeNetwork"
  shows "GetContainerIP c nameOrID w =
           ((docker_ContainerNetwork.IPAddress bridgeNetwork, None), w')"
  using assms by (simp add: GetContainerIP_inspected)

theorem bridge_address_returned_witness:
  "GetContainerIP
     (logging_client (Inr (inspected True False
        (Some [''bridge'' \<mapsto> network ''172.17.0.2'', ''host'' \<mapsto> network '''']) ''host'' ''10.0.0.5'')))
     ''web'' [] = ((''172.17.0.2'', None), [''web'']) \<and>
   GetContainerIP
     (logging_client (Inr (inspected True False
        (Some [''bridge'' \<mapsto> network '''', ''host'' \<mapsto> network '''']) ''host'' ''10.0.0.5'')))
     ''web'' [] = (('''', None), [''web''])"
proof -
  let ?nets = "[''bridge'' \<mapsto> network ''172.17.0.2'', ''host'' \<mapsto> network '''']"
  let ?nets' = "[''bridge'' \<mapsto> network '''', ''host'' \<mapsto> network '''']"
  let ?info = "inspected True False (Some ?nets) ''host'' ''10.0.0.5''"
  let ?info' = "inspected True False (Some ?nets') ''host'' ''10.0.0.5''"
  have a: "InspectContainer (logging_client (Inr ?info)) ''web'' [] = (Inr ?info, [''web''])"
    and a': "InspectContainer (logging_client (Inr ?info')) ''web'' [] = (Inr ?info', [''web''])"
    by (simp_all add: InspectContainer_logging_client)
  have b: "Networks (NetworkSettings ?info) = Some ?nets"
    and b': "Networks (NetworkSettings ?info') = Some ?nets'"
    by (simp_all only: inspected_simps)
  have c: "?nets ''bridge'' = Some (network ''172.17.0.2'')"
    and c': "?nets' ''bridge'' = Some (network '''')"
    by simp_all
  show ?thesis
    using bridge_address_returned [OF a b c] bridge_address_returned [OF a' b' c']
    by (simp only: inspected_simps simp_thms)
qed

text \<open>
  C4, as amended. \<^verbatim>\<open>GetContainerIP\<close> returns \<^verbatim>\<open>"127.0.0.1"\<close> with a \<^verbatim>\<open>nil\<close> error
  if and only if the inspection succeeds and either one of the two host situations holds
  (the map is present, has no entry \<^verbatim>\<open>bridge\<close> and has an entry \<^verbatim>\<open>host\<close>; or the map
  is \<^verbatim>\<open>nil\<close> and the network mode is \<^verbatim>\<open>host\<close>), or the address that the container
  itself carries and that the other rules return (that of the entry \<^verbatim>\<open>bridge\<close> when
  there is one, the legacy field otherwise) is the string \<^verbatim>\<open>"127.0.0.1"\<close>.
\<close>

theorem loopback_characterised:
  "fst (GetContainerIP c nameOrID w) = (''127.0.0.1'', None) \<longleftrightarrow>
     (\<exists>info. fst (InspectContainer c nameOrID w) = Inr info \<and>
        (host_rule info \<or>
         (case Networks (NetworkSettings info) of
            Some networks \<Rightarrow>
              (case networks ''bridge'' of
                 Some bridgeNetwork \<Rightarrow>
                   docker_ContainerNetwork.IPAddress bridgeNetwork = ''127.0.0.1''
               | None \<Rightarrow>
                   docker_NetworkSettings.IPAddress (NetworkSettings info) = ''127.0.0.1'')
          | None \<Rightarrow> docker_NetworkSettings.IPAddress (NetworkSettings info) = ''127.0.0.1'')))"
proof (cases "InspectContainer c nameOrID w")
  case (Pair answer w')
  show ?thesis
  proof (cases answer)
    case (Inl err)
    then show ?thesis
      using Pair by (simp add: GetContainerIP_failed)
  next
    case (Inr info)
    then have "InspectContainer c nameOrID w = (Inr info, w')"
      using Pair by simp
    then show ?thesis
      by (auto simp add: GetContainerIP_inspected host_rule_def split: option.splits)
  qed
qed

theorem loopback_characterised_witness:
  "host_rule (inspected True False (Some [''host'' \<mapsto> network '''']) ''default'' '''') \<and>
   fst (GetContainerIP
     (logging_client (Inr (inspected True False (Some [''host'' \<mapsto> network '''']) ''default'' '''')))
     ''web'' []) = (''127.0.0.1'', None) \<and>
   host_rule (inspected True False None ''host'' '''') \<and>
   fst (GetContainerIP (logging_client (Inr (inspected True False None ''host'' ''''))) ''web'' []) =
     (''127.0.0.1'', None) \<and>
   fst (GetContainerIP (logging_client (Inr (inspected True False None ''default'' ''10.0.0.5'')))
     ''web'' []) \<noteq> (''127.0.0.1'', None)"
  using
    loopback_characterised [of
      "logging_client (Inr (inspected True False (Some [''host'' \<mapsto> network '''']) ''default'' ''''))"
      "''web''" "[]"]
    loopback_characterised [of
      "logging_client (Inr (inspected True False None ''host'' ''''))" "''web''" "[]"]
    loopback_characterised [of
      "logging_client (Inr (inspected True False None ''default'' ''10.0.0.5''))" "''web''" "[]"]
  by (simp add: InspectContainer_logging_client host_rule_def inspected_simps)

text \<open>
  C4, as stated, says that the two host situations are the only ones in which
  \<^verbatim>\<open>"127.0.0.1"\<close> is returned with a \<^verbatim>\<open>nil\<close> error. A container without per-network
  info, with a network mode other than \<^verbatim>\<open>host\<close> and with the legacy address
  \<^verbatim>\<open>"127.0.0.1"\<close> is in neither situation, and gets that result.
\<close>

theorem loopback_two_situations_counterexample:
  "fst (GetContainerIP (logging_client (Inr (inspected True False None ''default'' ''127.0.0.1'')))
          ''web'' []) = (''127.0.0.1'', None) \<and>
   \<not> host_rule (inspected True False None ''default'' ''127.0.0.1'')"
  by (simp add: GetContainerIP_def logging_client_def inspected_def host_rule_def)

text \<open>
  C5. When the inspection succeeds and neither the bridge rule nor one of the host rules
  applies, \<^verbatim>\<open>GetContainerIP\<close> returns the legacy address field with a \<^verbatim>\<open>nil\<close> error
  if that field is not empty, and otherwise the empty string with an error whose message
  is \<^verbatim>\<open>"No IP address found for container "\<close> followed by the identifier asked for.
\<close>

theorem legacy_address_or_error:
  assumes "InspectContainer c nameOrID w = (Inr info, w')"
    and "\<not> bridge_rule info" and "\<not> host_rule info"
  shows "GetContainerIP c nameOrID w =
           (if docker_NetworkSettings.IPAddress (NetworkSettings info) \<noteq> ''''
            then ((docker_NetworkSettings.IPAddress (NetworkSettings info), None), w')
            else (('''', Some (errorString (''No IP address found for container '' @ nameOrID))), w'))"
  using assms(2,3)
  by (auto simp add: GetContainerIP_inspected [OF assms(1)] bridge_rule_def host_rule_def
           split: option.splits)

theorem legacy_address_or_error_witness:
  "\<not> bridge_rule (inspected True False None ''default'' ''10.0.0.5'') \<and>
   \<not> host_rule (inspected True False None ''default'' ''10.0.0.5'') \<and>
   GetContainerIP (logging_client (Inr (inspected True False None ''default'' ''10.0.0.5'')))
     ''web'' [] = ((''10.0.0.5'', None), [''web'']) \<and>
   \<not> bridge_rule (inspected True False (Some Map.empty) ''host'' '''') \<and>
   \<not> host_rule (inspected True False (Some Map.empty) ''host'' '''') \<and>
   GetContainerIP (logging_client (Inr (inspected True False (Some Map.empty) ''host'' '''')))
     ''web'' [] =
     (('''', Some (errorString ''No IP address found for container web'')), [''web''])"
proof -
  let ?info = "inspected True False None ''default'' ''10.0.0.5''"
  let ?info' = "inspected True False (Some Map.empty) ''host'' ''''"
  have a: "InspectContainer (logging_client (Inr ?info)) ''web'' [] = (Inr ?info, [''web''])"
    and a': "InspectContainer (logging_client (Inr ?info')) ''web'' [] = (Inr ?info', [''web''])"
    by (simp_all add: InspectContainer_logging_client)
  have b: "\<not> bridge_rule ?info" and b': "\<not> bridge_rule ?info'"
    by (simp_all add: bridge_rule_def inspected_simps)
  have h: "\<not> host_rule ?info" and h': "\<not> host_rule ?info'"
    by (simp_all add: host_rule_def inspected_simps)
  show ?thesis
    using legacy_address_or_error [OF a b h] legacy_address_or_error [OF a' b' h'] b b' h h'
    by (simp add: inspected_simps)
qed

text \<open>
  C6. For every client, identifier and world, the world after \<^verbatim>\<open>GetContainerIP\<close> is
  the world after one call of \<^verbatim>\<open>InspectContainer\<close> with that identifier: a client that
  writes down what it is asked has exactly that one identifier more on its list. If the
  call fails, whatever the error (a \<^verbatim>\<open>NoSuchContainer\<close> included), that very error is
  returned with the empty string, and nothing else is looked at.
\<close>

theorem inspect_called_once:
  "snd (GetContainerIP c nameOrID w) = snd (InspectContainer c nameOrID w) \<and>
   snd (GetContainerIP (logging_client answer) nameOrID asked) = asked @ [nameOrID] \<and>
   (\<forall>err. fst (InspectContainer c nameOrID w) = Inl err \<longrightarrow>
          fst (GetContainerIP c nameOrID w) = ('''', Some err))"
proof (intro conjI allI impI)
  show "snd (GetContainerIP c nameOrID w) = snd (InspectContainer c nameOrID w)"
    by (simp add: GetContainerIP_def split: prod.splits sum.splits)
  show "snd (GetContainerIP (logging_client answer) nameOrID asked) = asked @ [nameOrID]"
    by (simp add: GetContainerIP_def logging_client_def split: sum.splits)
next
  fix err
  assume "fst (InspectContainer c nameOrID w) = Inl err"
  then have "InspectContainer c nameOrID w = (Inl err, snd (InspectContainer c nameOrID w))"
    by (simp add: prod_eq_iff)
  then show "fst (GetContainerIP c nameOrID w) = ('''', Some err)"
    by (simp add: GetContainerIP_failed)
qed

theorem inspect_called_once_witness:
  "GetContainerIP (logging_client (Inl (NoSuchContainer ''ghost''))) ''ghost'' [''web''] =
     (('''', Some (NoSuchContainer ''ghost'')), [''web'', ''ghost''])"
  using inspect_called_once [of "logging_client (Inl (NoSuchContainer ''ghost''))" "''ghost''"
      "[''web'']" "Inl (NoSuchContainer ''ghost'')" "[''web'']"]
  by (simp add: InspectContainer_logging_client prod_eq_iff)

text \<open>
  C7. The inner loop of the goroutine makes, for the events received from a stream and
  in their order, exactly the calls that the specification lists for each event: one
  \<^verbatim>\<open>ContainerStarted\<close> with the event's identifier for status \<^verbatim>\<open>start\<close>, one
  \<^verbatim>\<open>ContainerDied\<close> with it for status \<^verbatim>\<open>die\<close>, none for any other status. This
  holds for an arbitrary observer, whose state after the stream is the result of these
  calls made one after the other; the recording observer shows the calls themselves.
  Over a whole execution the observer receives these calls for the delivered events of
  all streams and no other call.
\<close>

theorem observer_calls_in_order:
  "range_events ob events s = foldl (invoke ob) s (concat (map calls_for events)) \<and>
   range_events recorder events calls = calls @ concat (map calls_for events) \<and>
   observer (subscription recorder script calls) =
     calls @ concat (map calls_for (delivered script))"
proof (intro conjI)
  show "range_events ob events s = foldl (invoke ob) s (concat (map calls_for events))"
    by (rule range_events_invoke)
  show "range_events recorder events calls = calls @ concat (map calls_for events)"
    by (rule range_events_recorder)
  show "observer (subscription recorder script calls) =
          calls @ concat (map calls_for (delivered script))"
    by (simp add: subscription_def observer_event_loop range_events_recorder)
qed

theorem observer_calls_in_order_witness:
  "range_events recorder
     [event ''start'' ''c1'', event ''create'' ''c2'', event ''die'' ''c1'', event ''start'' ''c3'']
     [] = [Started ''c1'', Died ''c1'', Started ''c3''] \<and>
   observer (subscription recorder
     [Streamed [event ''start'' ''c1''] 5, ListenFailed (errorString ''refused''),
      Streamed [event ''destroy'' ''c1'', event ''die'' ''c1''] 7] []) =
     [Started ''c1'', Died ''c1'']"
  using observer_calls_in_order [of recorder
      "[event ''start'' ''c1'', event ''create'' ''c2'', event ''die'' ''c1'', event ''start'' ''c3'']"
      "[]" "[]"
      "[Streamed [event ''start'' ''c1''] 5, ListenFailed (errorString ''refused''),
        Streamed [event ''destroy'' ''c1'', event ''die'' ''c1''] 7]"]
  by (simp add: calls_for_def event_def invoke_def recorder_def)

text \<open>
  C8. For every observer, \<^verbatim>\<open>AddObserver\<close> returns a \<^verbatim>\<open>nil\<close> error and starts exactly
  one goroutine, the subscription loop; it performs no pass of the loop itself. Failures
  to open the stream stay inside the goroutine: after any number of them the observer
  has not been called, one sleep has been made per failure, and the loop goes on with
  whatever the daemon answers next.
\<close>

theorem AddObserver_returns_nil:
  "snd (AddObserver ob) = None \<and>
   fst (AddObserver ob) = [subscription ob] \<and>
   observer (subscription ob (map ListenFailed errs) s) = s \<and>
   length (slept (subscription ob (map ListenFailed errs) s)) = length errs \<and>
   subscription ob (map ListenFailed errs @ script) s =
     event_loop ob script (subscription ob (map ListenFailed errs) s)"
proof (intro conjI)
  show "snd (AddObserver ob) = None" and "fst (AddObserver ob) = [subscription ob]"
    by (simp_all add: AddObserver_def)
  have "delivered (map ListenFailed errs) = []"
    by (induction errs) simp_all
  then show "observer (subscription ob (map ListenFailed errs) s) = s"
    by (simp add: subscription_def observer_event_loop)
  show "length (slept (subscription ob (map ListenFailed errs) s)) = length errs"
    by (simp add: subscription_def failures_slept)
  show "subscription ob (map ListenFailed errs @ script) s =
     event_loop ob script (subscription ob (map ListenFailed errs) s)"
    by (simp add: subscription_def event_loop_append)
qed

theorem AddObserver_returns_nil_witness:
  "snd (AddObserver recorder) = None \<and>
   length (fst (AddObserver recorder)) = 1 \<and>
   observer (subscription recorder
     (map ListenFailed [errorString ''refused'', errorString ''timeout'']) []) = [] \<and>
   length (slept (subscription recorder
     (map ListenFailed [errorString ''refused'', errorString ''timeout'']) [])) = 2"
  using AddObserver_returns_nil [of recorder "[errorString ''refused'', errorString ''timeout'']" "[]" "[]"]
  by simp

text \<open>
  C9. \<^verbatim>\<open>IsContainerNotRunning\<close> returns \<^verbatim>\<open>true\<close> exactly when the inspection
  succeeds and the state of the container is not running or is restarting, or the
  inspection fails with an error of type \<^verbatim>\<open>NoSuchContainer\<close>. For every other
  failure of the inspection it therefore returns \<^verbatim>\<open>false\<close>.
\<close>

theorem not_running_iff:
  "fst (IsContainerNotRunning c idStr w) \<longleftrightarrow>
     (\<exists>container. fst (InspectContainer c idStr w) = Inr container \<and>
        (\<not> Running (State container) \<or> Restarting (State container))) \<or>
     (\<exists>ident. fst (InspectContainer c idStr w) = Inl (NoSuchContainer ident))"
  by (cases "InspectContainer c idStr w")
    (auto simp add: IsContainerNotRunning_def split: sum.splits error.splits)

theorem not_running_iff_witness:
  "fst (IsContainerNotRunning
     (logging_client (Inr (inspected True True None ''default'' ''10.0.0.5''))) ''web'' []) \<and>
   \<not> fst (IsContainerNotRunning
     (logging_client (Inr (inspected True False None ''default'' ''10.0.0.5''))) ''web'' []) \<and>
   fst (IsContainerNotRunning (logging_client (Inl (NoSuchContainer ''ghost''))) ''ghost'' []) \<and>
   \<not> fst (IsContainerNotRunning (logging_client (Inl (errorString ''timeout''))) ''web'' [])"
  using
    not_running_iff [of "logging_client (Inr (inspected True True None ''default'' ''10.0.0.5''))"
      "''web''" "[]"]
    not_running_iff [of "logging_client (Inr (inspected True False None ''default'' ''10.0.0.5''))"
      "''web''" "[]"]
    not_running_iff [of "logging_client (Inl (NoSuchContainer ''ghost''))" "''ghost''" "[]"]
    not_running_iff [of "logging_client (Inl (errorString ''timeout''))" "''web''" "[]"]
  by (simp add: InspectContainer_logging_client inspected_simps)

text \<open>
  C10. Whenever \<^verbatim>\<open>GetContainerIP\<close> returns an error that is not \<^verbatim>\<open>nil\<close>, the address
  it returns with it is the empty string.
\<close>

theorem error_has_empty_address:
  assumes "snd (fst (GetContainerIP c nameOrID w)) \<noteq> None"
  shows "fst (fst (GetContainerIP c nameOrID w)) = ''''"
  using assms
  by (cases "InspectContainer c nameOrID w")
    (auto simp add: GetContainerIP_def Let_def split: sum.splits option.splits if_splits)

theorem error_has_empty_address_witness:
  "snd (fst (GetContainerIP (logging_client (Inl (errorString ''timeout''))) ''web'' [])) \<noteq> None \<and>
   fst (fst (GetContainerIP (logging_client (Inl (errorString ''timeout''))) ''web'' [])) = '''' \<and>
   snd (fst (GetContainerIP
     (logging_client (Inr (inspected True False None ''default'' ''''))) ''web'' [])) \<noteq> None \<and>
   fst (fst (GetContainerIP
     (logging_client (Inr (inspected True False None ''default'' ''''))) ''web'' [])) = ''''"
proof -
  have e: "snd (fst (GetContainerIP (logging_client (Inl (errorString ''timeout''))) ''web'' [])) \<noteq> None"
    by (simp add: GetContainerIP_def logging_client_def)
  have n: "snd (fst (GetContainerIP
      (logging_client (Inr (inspected True False None ''default'' ''''))) ''web'' [])) \<noteq> None"
    by (simp add: GetContainerIP_def logging_client_def inspected_def)
  show ?thesis
    using e n error_has_empty_address [OF e] error_has_empty_address [OF n]
    by (simp only: simp_thms)
qed

end
